theory Spec2Isabelle
  imports
    Main
    "HOL-Library.Word"
    "HOL-Library.Signed_Division"
    "HOL-Library.AList"
    "HOL-Library.Multiset"
begin

section \<open>Data model of out_newrelic.go\<close>

text \<open>
  Go's \<open>int64\<close> is a 64-bit word: \<open>+\<close>, \<open>-\<close> and \<open>*\<close> wrap around, comparisons
  read it as two's complement (\<open>sint\<close>), and \<open>/\<close> truncates towards zero.
\<close>

type_synonym int64 = "64 word"

definition div64 :: "int64 \<Rightarrow> int64 \<Rightarrow> int64" where
  "div64 a b = word_of_int (sint a sdiv sint b)"

text \<open>
  The dynamically typed values of a decoded record (\<open>interface{}\<close>). Go strings and byte
  slices are both byte sequences, here \<open>string\<close>. \<open>VMap\<close> is
  \<open>map[interface{}]interface{}\<close>, the decoder's map type; \<open>VStrMap\<close> is
  \<open>map[string]interface{}\<close>, the type \<open>remapRecord\<close> builds. A Go map is a finite
  set of entries with distinct keys and no order; it is an association list here, read in
  list order. Keys of an interface-keyed map are hashable values only (a byte slice
  cannot be a key of a Go map). Floating-point numbers are left out: they take the same
  \<open>default\<close> branch as the integers everywhere.
\<close>

datatype key = KString string | KInt int64 | KUint int64 | KBool bool | KNil

datatype val =
    VNil
  | VBool bool
  | VInt int64
  | VUint int64
  | VBytes string
  | VString string
  | VList "val list"
  | VMap "(key \<times> val) list"
  | VStrMap "(string \<times> val) list"

type_synonym logRecord = "(string \<times> val) list"

record PluginConfig =
  endpoint :: string
  apiKey :: string
  licenseKey :: string
  maxBufferSize :: int64
  maxRecords :: int64
  maxTimeBetweenFlushes :: int64
  useApiKey :: bool
  reportingSourceType :: string
  reportingSourceVersion :: string

text \<open>
  \<open>BufferManager\<close> without its HTTP client: the requests themselves are not modelled,
  only which payloads are handed to a request.
\<close>

record BufferManager =
  config :: PluginConfig
  buffer :: "logRecord list"
  lastFlushTime :: int64

text \<open>
  A \<open>bytes.Buffer\<close> after the gzip writer is closed: its contents, their length
  (\<open>Len()\<close>) and the capacity of the underlying slice (\<open>Cap()\<close>). The byte strings
  that \<open>encoding/json\<close> and \<open>compress/gzip\<close> produce are not computed here: the two
  library calls are parameters, over a type \<open>'b\<close> of byte strings.
\<close>

record 'b Buffer =
  Bytes :: 'b
  Len :: nat
  Cap :: nat

record 'b Lib =
  jsonBytes :: "logRecord list \<Rightarrow> 'b"
  gzipBuffer :: "'b \<Rightarrow> 'b Buffer"

text \<open>The two ways the code panics.\<close>

datatype panic = TypeAssertion | UnsupportedType

section \<open>Timestamps\<close>

definition maxSeconds :: int64 where
  "maxSeconds = 2000000000"

definition maxMilliseconds :: int64 where
  "maxMilliseconds = maxSeconds * 1000"

definition maxMicroseconds :: int64 where
  "maxMicroseconds = maxMilliseconds * 1000"

definition timeToMillis :: "int64 \<Rightarrow> int64" where
  "timeToMillis time =
     (if time <s maxSeconds then time * 1000
      else if time <s maxMilliseconds then time
      else if time <s maxMicroseconds then div64 time 1000
      else div64 time 1000000)"

section \<open>Record Normalizer\<close>

text \<open>The type assertion \<open>k.(string)\<close>: it panics unless the key holds a string.\<close>

fun assertString :: "key \<Rightarrow> panic + string" where
  "assertString (KString s) = Inr s"
| "assertString k = Inl TypeAssertion"

text \<open>The assignment \<open>outputRecord[k.(string)] = v\<close>.\<close>

definition store :: "key \<Rightarrow> val \<Rightarrow> logRecord \<Rightarrow> panic + logRecord" where
  "store k v outputRecord =
     (case assertString k of
        Inl p \<Rightarrow> Inl p
      | Inr s \<Rightarrow> Inr (AList.update s v outputRecord))"

text \<open>
  The \<open>range\<close> loop of \<open>remapRecord\<close> over the entries still to visit, with the output
  map built so far. The \<open>switch\<close> on the value's type: a byte slice becomes a string, a
  string stays, a \<open>map[interface{}]interface{}\<close> is remapped by a recursive call, and
  every other value (a list too, with whatever it holds) is stored as it is.
\<close>

function remapLoop :: "(key \<times> val) list \<Rightarrow> logRecord \<Rightarrow> panic + logRecord" where
  "remapLoop [] outputRecord = Inr outputRecord"
| "remapLoop ((k, v) # rest) outputRecord =
     (case v of
        VBytes value \<Rightarrow>
          (case store k (VString value) outputRecord of
             Inl p \<Rightarrow> Inl p
           | Inr out \<Rightarrow> remapLoop rest out)
      | VString value \<Rightarrow>
          (case store k (VString value) outputRecord of
             Inl p \<Rightarrow> Inl p
           | Inr out \<Rightarrow> remapLoop rest out)
      | VMap value \<Rightarrow>
          (case remapLoop value [] of
             Inl p \<Rightarrow> Inl p
           | Inr inner \<Rightarrow>
               (case store k (VStrMap inner) outputRecord of
                  Inl p \<Rightarrow> Inl p
                | Inr out \<Rightarrow> remapLoop rest out))
      | _ \<Rightarrow>
          (case store k v outputRecord of
             Inl p \<Rightarrow> Inl p
           | Inr out \<Rightarrow> remapLoop rest out))"
  by pat_completeness auto
termination
  by (relation "measure (\<lambda>(m, out). size_list (size_prod (\<lambda>k. 0) size) m)") auto

definition remapRecord :: "(key \<times> val) list \<Rightarrow> panic + logRecord" where
  "remapRecord inputRecord = remapLoop inputRecord []"

text \<open>
  The raw timestamp is an \<open>interface{}\<close>: an \<open>output.FLBTime\<close> (carrying here what
  \<open>UnixNano()\<close> returns for it), a \<open>uint64\<close> (converted to \<open>int64\<close> bit for bit), or
  anything else.
\<close>

datatype timestamp = FLBTime int64 | Uint64 int64 | OtherTime

definition prepareRecord ::
    "(key \<times> val) list \<Rightarrow> timestamp \<Rightarrow> PluginConfig \<Rightarrow> panic + logRecord" where
  "prepareRecord inputRecord inputTimestamp cfg =
     (case remapRecord inputRecord of
        Inl p \<Rightarrow> Inl p
      | Inr r0 \<Rightarrow>
          let r1 = (case inputTimestamp of
                      FLBTime ns \<Rightarrow> AList.update ''timestamp'' (VInt (timeToMillis ns)) r0
                    | Uint64 u \<Rightarrow> AList.update ''timestamp'' (VInt (timeToMillis u)) r0
                    | OtherTime \<Rightarrow> r0);
              r2 = (case map_of r1 ''log'' of
                      Some v \<Rightarrow> AList.delete ''log'' (AList.update ''message'' v r1)
                    | None \<Rightarrow> r1)
          in Inr (AList.update ''nr.reportingSource''
                    (VStrMap [(''type'', VString (reportingSourceType cfg)),
                              (''version'', VString (reportingSourceVersion cfg))]) r2))"

section \<open>Payload Packager\<close>

text \<open>
  \<open>json.Marshal\<close> returns an error for a value whose type it does not support. Among the
  values of this model that is exactly a \<open>map[interface{}]interface{}\<close> anywhere in the
  tree (its key type is neither a string nor an integer type).
\<close>

fun jsonSupported :: "val \<Rightarrow> bool" where
  "jsonSupported (VList xs) = list_all jsonSupported xs"
| "jsonSupported (VMap m) = False"
| "jsonSupported (VStrMap m) = list_all (\<lambda>e. jsonSupported (snd e)) m"
| "jsonSupported v = True"

definition serializable :: "logRecord list \<Rightarrow> bool" where
  "serializable records = list_all (\<lambda>r. jsonSupported (VStrMap r)) records"

definition jsonMarshal :: "'b Lib \<Rightarrow> logRecord list \<Rightarrow> panic + 'b" where
  "jsonMarshal lib records =
     (if serializable records then Inr (jsonBytes lib records) else Inl UnsupportedType)"

text \<open>
  \<open>packagePayload\<close> panics on an error of \<open>json.Marshal\<close>; writing to, flushing and
  closing a gzip writer over a \<open>bytes.Buffer\<close> return no error. When it returns, its
  error result is \<open>nil\<close> (\<open>None\<close>).
\<close>

definition packagePayload :: "'b Lib \<Rightarrow> logRecord list \<Rightarrow> panic + ('b Buffer \<times> panic option)" where
  "packagePayload lib records =
     (case jsonMarshal lib records of
        Inl err \<Rightarrow> Inl err
      | Inr data \<Rightarrow> Inr (gzipBuffer lib data, None))"

text \<open>The buffer \<open>packagePayload\<close> returns for records that \<open>json.Marshal\<close> accepts.\<close>

definition compressed :: "'b Lib \<Rightarrow> logRecord list \<Rightarrow> 'b Buffer" where
  "compressed lib records = gzipBuffer lib (jsonBytes lib records)"

text \<open>
  How a call ends: it returns, it panics, or it is still running when the recursion
  depth allowed to the model is used up.
\<close>

datatype outcome = Returned | Panicked panic | Unfinished

text \<open>
  \<open>prepare\<close>, with the payloads handed to a request so far (each \<open>go func\<close> appends one)
  threaded through. The first argument bounds the depth of the recursion, which the
  source does not bound.
\<close>

fun prepare ::
    "nat \<Rightarrow> 'b Lib \<Rightarrow> PluginConfig \<Rightarrow> logRecord list \<Rightarrow> 'b Buffer list
       \<Rightarrow> outcome \<times> 'b Buffer list" where
  "prepare 0 lib cfg records sent = (Unfinished, sent)"
| "prepare (Suc n) lib cfg records sent =
     (case packagePayload lib records of
        Inl err \<Rightarrow> (Panicked err, sent)
      | Inr (data, Some err) \<Rightarrow> (Panicked err, sent)
      | Inr (data, None) \<Rightarrow>
          if sint (maxBufferSize cfg) \<le> int (Cap data) then
            let first = take (length records div 2) records;
                second = drop (length records div 2) records
            in (case prepare n lib cfg first sent of
                  (Returned, sent1) \<Rightarrow> prepare n lib cfg second sent1
                | other \<Rightarrow> other)
          else (Returned, sent @ [data]))"

section \<open>Batch Accumulator\<close>

text \<open>
  The clock (\<open>timeNowInMiliseconds\<close>) is an input: each function that reads it takes the
  value it reads.
\<close>

definition newBufferManager :: "PluginConfig \<Rightarrow> int64 \<Rightarrow> BufferManager" where
  "newBufferManager cfg now = \<lparr>config = cfg, buffer = [], lastFlushTime = now\<rparr>"

definition isEmpty :: "BufferManager \<Rightarrow> bool" where
  "isEmpty bm = (length (buffer bm) = 0)"

definition shouldSend :: "int64 \<Rightarrow> BufferManager \<Rightarrow> bool" where
  "shouldSend now bm =
     (sint (maxRecords (config bm)) \<le> int (length (buffer bm))
      \<or> sint (maxTimeBetweenFlushes (config bm)) < sint (now - lastFlushTime bm))"

definition sendRecords ::
    "nat \<Rightarrow> 'b Lib \<Rightarrow> int64 \<Rightarrow> BufferManager \<Rightarrow> BufferManager \<times> outcome \<times> 'b Buffer list" where
  "sendRecords fuel lib now bm =
     (let newBuffer = buffer bm;
          bm' = bm\<lparr>buffer := [], lastFlushTime := now\<rparr>
      in (bm', prepare fuel lib (config bm') newBuffer []))"

text \<open>
  \<open>addRecord\<close> returns \<open>nil\<close> (\<open>None\<close>) when no flush is due, and the channel of the flush
  otherwise: here how the flush ended and the payloads it handed over.
\<close>

definition addRecord ::
    "nat \<Rightarrow> 'b Lib \<Rightarrow> int64 \<Rightarrow> int64 \<Rightarrow> logRecord \<Rightarrow> BufferManager
       \<Rightarrow> BufferManager \<times> (outcome \<times> 'b Buffer list) option" where
  "addRecord fuel lib nowCheck nowFlush r bm =
     (let bm1 = bm\<lparr>buffer := buffer bm @ [r]\<rparr>
      in if shouldSend nowCheck bm1
         then (case sendRecords fuel lib nowFlush bm1 of (bm2, res) \<Rightarrow> (bm2, Some res))
         else (bm1, None))"

definition FLBPluginExit ::
    "nat \<Rightarrow> 'b Lib \<Rightarrow> int64 \<Rightarrow> BufferManager \<Rightarrow> BufferManager \<times> (outcome \<times> 'b Buffer list) option" where
  "FLBPluginExit fuel lib now bm =
     (if \<not> isEmpty bm
      then (case sendRecords fuel lib now bm of (bm2, res) \<Rightarrow> (bm2, Some res))
      else (bm, None))"

section \<open>Initialization\<close>

text \<open>
  The plugin's configuration is a finite map from keys to strings;
  \<open>output.FLBPluginConfigKey\<close> gives the empty string for a key that is not set.
\<close>

definition FLBPluginConfigKey :: "(string \<rightharpoonup> string) \<Rightarrow> string \<Rightarrow> string" where
  "FLBPluginConfigKey ctx k = (case ctx k of None \<Rightarrow> [] | Some v \<Rightarrow> v)"

datatype flb_status = FLB_ERROR | FLB_OK | FLB_RETRY

text \<open>
  \<open>FLBPluginInit\<close> assigns the global \<open>bufferManager\<close> when it succeeds. The constant
  \<open>VERSION\<close> (declared in another file of the package), the value
  \<open>strconv.ParseInt(s, 10, 64)\<close> returns (its error is dropped by the code) and the
  clock reading of \<open>newBufferManager\<close> are parameters.
\<close>

definition FLBPluginInit ::
    "string \<Rightarrow> (string \<Rightarrow> int64) \<Rightarrow> int64 \<Rightarrow> (string \<rightharpoonup> string) \<Rightarrow> BufferManager
       \<Rightarrow> flb_status \<times> BufferManager" where
  "FLBPluginInit VERSION ParseInt now ctx bufferManager =
     (let endpoint0 = FLBPluginConfigKey ctx ''endpoint'';
          endpoint1 = (if length endpoint0 = 0
                       then ''https://log-api.newrelic.com/log/v1'' else endpoint0);
          licenseKey1 = FLBPluginConfigKey ctx ''licenseKey'';
          apiKey1 = FLBPluginConfigKey ctx ''apiKey''
      in if length apiKey1 = 0 \<and> length licenseKey1 = 0 then (FLB_ERROR, bufferManager)
         else if length apiKey1 > 0 \<and> length licenseKey1 > 0 then (FLB_ERROR, bufferManager)
         else
           let possibleMaxBufferSize = FLBPluginConfigKey ctx ''maxBufferSize'';
               possibleMaxRecords = FLBPluginConfigKey ctx ''maxRecords'';
               possibleMaxTimeBetweenFlushes = FLBPluginConfigKey ctx ''maxTimeBetweenFlushes'';
               reportingSourceType1 = FLBPluginConfigKey ctx ''reportingSourceType'';
               reportingSourceVersion1 = FLBPluginConfigKey ctx ''reportingSourceVersion'';
               cfg = \<lparr>endpoint = endpoint1,
                      apiKey = apiKey1,
                      licenseKey = licenseKey1,
                      maxBufferSize =
                        (if length possibleMaxBufferSize = 0 then 256000
                         else ParseInt possibleMaxBufferSize),
                      maxRecords =
                        (if length possibleMaxRecords = 0 then 1024
                         else ParseInt possibleMaxRecords),
                      maxTimeBetweenFlushes =
                        (if length possibleMaxTimeBetweenFlushes = 0 then 5000
                         else ParseInt possibleMaxTimeBetweenFlushes),
                      useApiKey = (length apiKey1 > 0),
                      reportingSourceType =
                        (if length reportingSourceType1 = 0 then ''fluent-bit''
                         else reportingSourceType1),
                      reportingSourceVersion =
                        (if length reportingSourceType1 = 0 then VERSION
                         else reportingSourceVersion1)\<rparr>
           in (FLB_OK, newBufferManager cfg now))"

section \<open>Notions used in the statements\<close>

text \<open>
  What the specification says of a normalized record, written out so that
  \<open>remapRecord\<close> can be compared with it: a key is read as its string, a byte sequence
  becomes text, a mapping is normalized entry by entry, and any other value is left
  alone.
\<close>

fun isString :: "key \<Rightarrow> bool" where
  "isString (KString s) = True"
| "isString k = False"

fun keyString :: "key \<Rightarrow> string" where
  "keyString (KString s) = s"
| "keyString k = []"

fun normalized :: "val \<Rightarrow> val" where
  "normalized (VBytes b) = VString b"
| "normalized (VMap m) = VStrMap (map (\<lambda>e. (keyString (fst e), normalized (snd e))) m)"
| "normalized v = v"

text \<open>
  \<open>stringKeyed\<close>: every key of the mapping, and of the mappings nested directly inside
  mappings, is a string. \<open>distinctKeys\<close>: no key occurs twice in a mapping, as in every
  Go map. \<open>mapsOnlyInMaps\<close>: no list holds a \<open>map[interface{}]interface{}\<close>.
\<close>

fun stringKeyed :: "val \<Rightarrow> bool" where
  "stringKeyed (VMap m) = list_all (\<lambda>e. isString (fst e) \<and> stringKeyed (snd e)) m"
| "stringKeyed v = True"

fun distinctKeys :: "val \<Rightarrow> bool" where
  "distinctKeys (VMap m) = (distinct (map fst m) \<and> list_all (\<lambda>e. distinctKeys (snd e)) m)"
| "distinctKeys v = True"

fun mapsOnlyInMaps :: "val \<Rightarrow> bool" where
  "mapsOnlyInMaps (VMap m) = list_all (\<lambda>e. mapsOnlyInMaps (snd e)) m"
| "mapsOnlyInMaps v = jsonSupported v"

section \<open>Concrete inputs\<close>

text \<open>
  A stand-in for the two library calls, used only to run the model on concrete inputs.
  The JSON bytes of a record list are kept as the list itself; \<open>jsonLength\<close> is the
  number of bytes of the text \<open>json.Marshal\<close> writes for records whose values are plain
  strings. The gzip buffer holds 30 bytes more than the text: a header of 10 bytes, a
  trailer of 8, and the blocks Go's writer produces for a short text without repetitions
  (32 bytes for \<open>[]\<close>, 47 bytes for \<open>[{"message":"a"}]\<close>); for a text with repetitions
  the real length is smaller. The capacity is that of a \<open>bytes.Buffer\<close>, which starts
  with 64 bytes and at least doubles when it has to grow.
\<close>

fun valueLength :: "val \<Rightarrow> nat" where
  "valueLength (VString s) = length s + 2"
| "valueLength v = 4"

definition recordLength :: "logRecord \<Rightarrow> nat" where
  "recordLength r =
     2 + (length r - 1) + sum_list (map (\<lambda>e. length (fst e) + 3 + valueLength (snd e)) r)"

definition jsonLength :: "logRecord list \<Rightarrow> nat" where
  "jsonLength records = 2 + (length records - 1) + sum_list (map recordLength records)"

definition bufferCap :: "nat \<Rightarrow> nat" where
  "bufferCap n = (if n \<le> 64 then 64 else if n \<le> 128 then 128 else 2 * n)"

definition demoLib :: "(logRecord list) Lib" where
  "demoLib =
     \<lparr>jsonBytes = (\<lambda>records. records),
      gzipBuffer = (\<lambda>data. \<lparr>Bytes = data, Len = jsonLength data + 30,
                                Cap = bufferCap (jsonLength data + 30)\<rparr>)\<rparr>"

definition demoConfig :: PluginConfig where
  "demoConfig =
     \<lparr>endpoint = ''https://log-api.newrelic.com/log/v1'',
      apiKey = ''k'',
      licenseKey = [],
      maxBufferSize = 256000,
      maxRecords = 1024,
      maxTimeBetweenFlushes = 5000,
      useApiKey = True,
      reportingSourceType = ''fluent-bit'',
      reportingSourceVersion = ''1''\<rparr>"

definition demoRecord :: "string \<Rightarrow> logRecord" where
  "demoRecord s = [(''message'', VString s)]"

text \<open>
  Two records of 28 bytes of text each, with nothing in common but the key, and one
  record of 54 bytes.
\<close>

definition lowerRecord :: logRecord where
  "lowerRecord = demoRecord ''abcdefghijklmn''"

definition upperRecord :: logRecord where
  "upperRecord = demoRecord ''ABCDEFGHIJKLMN''"

definition longRecord :: logRecord where
  "longRecord = demoRecord ''abcdefghijklmnopqrstuvwxyzABCDEFGHIJKLMN''"

text \<open>A decoded record with a map inside a list: \<open>{"log": [{"b": 1}]}\<close>.\<close>

definition nestedRaw :: "(key \<times> val) list" where
  "nestedRaw = [(KString ''log'', VList [VMap [(KString ''b'', VInt 1)]])]"

section \<open>Timestamp normalization\<close>

lemma sint_thresholds:
  "sint maxSeconds = 2000000000"
  "sint maxMilliseconds = 2000000000000"
  "sint maxMicroseconds = 2000000000000000"
  by (simp_all add: maxSeconds_def maxMilliseconds_def maxMicroseconds_def)

lemma sdiv_nonneg: "0 \<le> a \<Longrightarrow> 0 < b \<Longrightarrow> (a::int) sdiv b = a div b"
  by (simp add: signed_divide_int_def sgn_if)

lemma sint_div64_nonneg:
  assumes a: "0 \<le> sint a" and b: "0 < sint b"
  shows "sint (div64 a b) = sint a div sint b"
proof -
  have le: "sint a div sint b \<le> sint a"
    using a b zdiv_mono2 [of "sint a" 1 "sint b"] by simp
  have lt: "sint a < 2 ^ 63"
    using sint_lt [of a] by simp
  have ge: "0 \<le> sint a div sint b"
    using a b by (simp add: pos_imp_zdiv_nonneg_iff)
  have "sint (div64 a b) = signed_take_bit 63 (sint a div sint b)"
    using a b by (simp add: div64_def sdiv_nonneg sint_sbintrunc')
  also have "\<dots> = sint a div sint b"
    using le lt ge by (simp add: signed_take_bit_int_eq_self_iff)
  finally show ?thesis .
qed

lemma sint_timeToMillis:
  "sint (timeToMillis t) =
     (if sint t < 2000000000 then signed_take_bit 63 (sint t * 1000)
      else if sint t < 2000000000000 then sint t
      else if sint t < 2000000000000000 then sint t div 1000
      else sint t div 1000000)"
  by (simp add: timeToMillis_def word_sless_alt sint_thresholds sint_div64_nonneg
      sint_word_ariths)

text \<open>
  C6. For every \<open>int64\<close> raw timestamp \<open>t\<close>, read as the signed number \<open>sint t\<close>:
  below 2000000000 the result is \<open>t * 1000\<close> computed in \<open>int64\<close> (the product modulo
  \<open>2^64\<close>, which is the exact product from \<open>-9223372036854775\<close> upwards); below
  2000000000000 it is \<open>t\<close> unchanged; below 2000000000000000 it is \<open>t\<close> divided by 1000;
  otherwise it is \<open>t\<close> divided by 1000000. In the two dividing brackets \<open>t\<close> is
  positive, so Go's truncating division is the ordinary quotient. 1555612951 gives
  1555612951000, and 1555612951401 is returned unchanged.
\<close>

theorem timeToMillis_brackets:
  "sint (timeToMillis t) =
     (if sint t < 2000000000 then signed_take_bit 63 (sint t * 1000)
      else if sint t < 2000000000000 then sint t
      else if sint t < 2000000000000000 then sint t div 1000
      else sint t div 1000000)
   \<and> (- 9223372036854775 \<le> sint t \<and> sint t < 2000000000
        \<longrightarrow> sint (timeToMillis t) = sint t * 1000)
   \<and> timeToMillis 1555612951 = 1555612951000
   \<and> timeToMillis 1555612951401 = 1555612951401"
proof -
  have exact: "sint (timeToMillis t) = sint t * 1000"
    if "- 9223372036854775 \<le> sint t" "sint t < 2000000000"
    using that by (simp add: sint_timeToMillis signed_take_bit_int_eq_self_iff)
  have s: "timeToMillis 1555612951 = 1555612951000"
    by (simp add: timeToMillis_def maxSeconds_def)
  have m: "timeToMillis 1555612951401 = 1555612951401"
    by (simp add: timeToMillis_def maxSeconds_def maxMilliseconds_def)
  show ?thesis
    using exact s m sint_timeToMillis [of t] by blast
qed

theorem timeToMillis_brackets_witness:
  "- 9223372036854775 \<le> sint (1555612951 :: int64) \<and> sint (1555612951 :: int64) < 2000000000
   \<and> sint (timeToMillis 1555612951) = 1555612951000
   \<and> sint (timeToMillis 1555612951401000) = 1555612951401
   \<and> sint (timeToMillis 1555612951401000000) = 1555612951401"
  using timeToMillis_brackets [of 1555612951] timeToMillis_brackets [of 1555612951401000]
    timeToMillis_brackets [of 1555612951401000000]
  by simp

section \<open>Properties of the Payload Packager\<close>

lemma packagePayload_cases:
  "packagePayload lib records =
     (if serializable records then Inr (compressed lib records, None) else Inl UnsupportedType)"
  by (simp add: packagePayload_def jsonMarshal_def compressed_def)

lemma prepare_Suc:
  "prepare (Suc n) lib cfg records sent =
     (if \<not> serializable records then (Panicked UnsupportedType, sent)
      else if sint (maxBufferSize cfg) \<le> int (Cap (compressed lib records)) then
        (case prepare n lib cfg (take (length records div 2) records) sent of
           (Returned, sent1) \<Rightarrow> prepare n lib cfg (drop (length records div 2) records) sent1
         | other \<Rightarrow> other)
      else (Returned, sent @ [compressed lib records]))"
  by (simp add: packagePayload_cases Let_def)

declare prepare.simps(2) [simp del]

text \<open>
  The invariant of the recursion, for any depth and however the call ends: the payloads
  handed over are the buffers of serializable segments of the list, each with a capacity
  under the cap; and when the call returns, the segments make up the whole list, in
  order.
\<close>

lemma prepare_chunks:
  "\<exists>chunks. snd (prepare fuel lib cfg records sent) = sent @ map (compressed lib) chunks
     \<and> (\<forall>c\<in>set chunks. serializable c
           \<and> int (Cap (compressed lib c)) < sint (maxBufferSize cfg))
     \<and> (fst (prepare fuel lib cfg records sent) = Returned \<longrightarrow> concat chunks = records)"
proof (induction fuel arbitrary: records sent)
  case 0
  show ?case by (rule exI [of _ "[]"]) simp
next
  case (Suc n)
  let ?first = "take (length records div 2) records"
  let ?second = "drop (length records div 2) records"
  show ?case
  proof (cases "serializable records \<and> sint (maxBufferSize cfg) \<le> int (Cap (compressed lib records))")
    case False
    then consider "\<not> serializable records"
      | "serializable records" "\<not> sint (maxBufferSize cfg) \<le> int (Cap (compressed lib records))"
      by blast
    then show ?thesis
    proof cases
      case 1
      then show ?thesis by (intro exI [of _ "[]"]) (simp add: prepare_Suc)
    next
      case 2
      then show ?thesis by (intro exI [of _ "[records]"]) (simp add: prepare_Suc)
    qed
  next
    case True
    obtain o1 s1 where p1: "prepare n lib cfg ?first sent = (o1, s1)"
      by (cases "prepare n lib cfg ?first sent")
    from Suc.IH [of ?first sent] p1 obtain c1 where
      c1: "s1 = sent @ map (compressed lib) c1"
        "\<forall>c\<in>set c1. serializable c
           \<and> int (Cap (compressed lib c)) < sint (maxBufferSize cfg)"
        "o1 = Returned \<longrightarrow> concat c1 = ?first"
      by auto
    show ?thesis
    proof (cases "o1 = Returned")
      case False
      then have "prepare (Suc n) lib cfg records sent = (o1, s1)"
        using True p1 by (simp add: prepare_Suc split: outcome.splits)
      then show ?thesis using c1 False by (intro exI [of _ c1]) simp
    next
      case Returned: True
      then have eq: "prepare (Suc n) lib cfg records sent = prepare n lib cfg ?second s1"
        using True p1 by (simp add: prepare_Suc)
      from Suc.IH [of ?second s1] obtain c2 where
        c2: "snd (prepare n lib cfg ?second s1) = s1 @ map (compressed lib) c2"
          "\<forall>c\<in>set c2. serializable c
            \<and> int (Cap (compressed lib c)) < sint (maxBufferSize cfg)"
          "fst (prepare n lib cfg ?second s1) = Returned \<longrightarrow> concat c2 = ?second"
        by auto
      have "concat (c1 @ c2) = records"
        if "fst (prepare n lib cfg ?second s1) = Returned"
        using that c1(3) c2(3) Returned by simp
      then show ?thesis
        using eq c1 c2 by (intro exI [of _ "c1 @ c2"]) auto
    qed
  qed
qed

text \<open>
  A panic can only come from \<open>json.Marshal\<close>, and it comes at once, on the whole list.
\<close>

lemma serializable_take: "serializable records \<Longrightarrow> serializable (take k records)"
  unfolding serializable_def list_all_iff by (auto dest: in_set_takeD)

lemma serializable_drop: "serializable records \<Longrightarrow> serializable (drop k records)"
  unfolding serializable_def list_all_iff by (auto dest: in_set_dropD)

lemma prepare_serializable_no_panic:
  "serializable records \<Longrightarrow> fst (prepare fuel lib cfg records sent) \<noteq> Panicked p"
proof (induction fuel arbitrary: records sent)
  case 0
  show ?case by simp
next
  case (Suc n)
  let ?first = "take (length records div 2) records"
  let ?second = "drop (length records div 2) records"
  obtain o1 s1 where p1: "prepare n lib cfg ?first sent = (o1, s1)"
    by (cases "prepare n lib cfg ?first sent")
  have o1: "o1 \<noteq> Panicked p"
    using Suc.IH [of ?first sent] Suc.prems p1 by (simp add: serializable_take)
  have o2: "fst (prepare n lib cfg ?second s1) \<noteq> Panicked p"
    using Suc.IH [of ?second s1] Suc.prems by (simp add: serializable_drop)
  show ?case
    using Suc.prems p1 o1 o2 by (auto simp add: prepare_Suc split: outcome.splits)
qed

lemma prepare_unserializable:
  "\<not> serializable records \<Longrightarrow>
     prepare (Suc n) lib cfg records sent = (Panicked UnsupportedType, sent)"
  by (simp add: prepare_Suc)

text \<open>
  The depth bound does not change what a call does: once \<open>prepare\<close> has returned or
  panicked within some depth, it gives the same outcome and the same payloads with any
  greater depth.
\<close>

lemma prepare_fuel_stable:
  "fst (prepare n lib cfg records sent) \<noteq> Unfinished \<Longrightarrow>
     prepare (Suc n) lib cfg records sent = prepare n lib cfg records sent"
proof (induction n arbitrary: records sent)
  case 0
  then show ?case by simp
next
  case (Suc n)
  let ?first = "take (length records div 2) records"
  let ?second = "drop (length records div 2) records"
  show ?case
  proof (cases "serializable records \<and> sint (maxBufferSize cfg) \<le> int (Cap (compressed lib records))")
    case False
    then show ?thesis by (auto simp add: prepare_Suc)
  next
    case True
    obtain o1 s1 where p1: "prepare n lib cfg ?first sent = (o1, s1)"
      by (cases "prepare n lib cfg ?first sent")
    have o1: "o1 \<noteq> Unfinished"
      using Suc.prems True p1 by (auto simp add: prepare_Suc [of n])
    then have q1: "prepare (Suc n) lib cfg ?first sent = (o1, s1)"
      using Suc.IH [of ?first sent] p1 by simp
    show ?thesis
    proof (cases "o1 = Returned")
      case False
      then show ?thesis
        using True p1 q1 by (simp add: prepare_Suc [of "Suc n"] prepare_Suc [of n] split: outcome.splits)
    next
      case Returned: True
      have "fst (prepare n lib cfg ?second s1) \<noteq> Unfinished"
        using Suc.prems True p1 Returned by (simp add: prepare_Suc [of n])
      then have "prepare (Suc n) lib cfg ?second s1 = prepare n lib cfg ?second s1"
        by (rule Suc.IH)
      then show ?thesis
        using True p1 q1 Returned by (simp add: prepare_Suc [of "Suc n"] prepare_Suc [of n])
    qed
  qed
qed

text \<open>
  On the empty list \<open>prepare\<close> hands over payloads of the empty list only, and a list of
  one record whose buffer capacity reaches the cap is split into the empty list and
  itself, for ever.
\<close>

lemma prepare_nil_replicate:
  "\<exists>k. snd (prepare fuel lib cfg [] sent) = sent @ replicate k (compressed lib [])"
proof (induction fuel arbitrary: sent)
  case 0
  show ?case by (rule exI [of _ 0]) simp
next
  case (Suc n)
  obtain o1 s1 where p1: "prepare n lib cfg [] sent = (o1, s1)"
    by (cases "prepare n lib cfg [] sent")
  from Suc.IH [of sent] p1 obtain k1 where k1: "s1 = sent @ replicate k1 (compressed lib [])"
    by auto
  from Suc.IH [of s1] obtain k2 where
    k2: "snd (prepare n lib cfg [] s1) = s1 @ replicate k2 (compressed lib [])"
    by auto
  have ser: "serializable []" by (simp add: serializable_def)
  show ?case
  proof (cases "sint (maxBufferSize cfg) \<le> int (Cap (compressed lib []))")
    case False
    then show ?thesis
      using ser by (intro exI [of _ 1]) (simp add: prepare_Suc)
  next
    case True
    show ?thesis
    proof (cases "o1 = Returned")
      case False
      then show ?thesis
        using True ser p1 k1 by (intro exI [of _ k1]) (simp add: prepare_Suc split: outcome.splits)
    next
      case Returned: True
      then show ?thesis
        using True ser p1 k1 k2
        by (intro exI [of _ "k1 + k2"]) (simp add: prepare_Suc replicate_add)
    qed
  qed
qed

lemma prepare_single_oversized:
  assumes ser: "serializable [r]"
    and big: "sint (maxBufferSize cfg) \<le> int (Cap (compressed lib [r]))"
  shows "fst (prepare fuel lib cfg [r] sent) = Unfinished
     \<and> (\<exists>k. snd (prepare fuel lib cfg [r] sent) = sent @ replicate k (compressed lib []))"
proof (induction fuel arbitrary: sent)
  case 0
  show ?case by (simp add: exI [of _ 0])
next
  case (Suc n)
  obtain o1 s1 where p1: "prepare n lib cfg [] sent = (o1, s1)"
    by (cases "prepare n lib cfg [] sent")
  from prepare_nil_replicate [of n lib cfg sent] p1
  obtain k1 where k1: "s1 = sent @ replicate k1 (compressed lib [])"
    by auto
  have np: "o1 \<noteq> Panicked p" for p
    using prepare_serializable_no_panic [of "[]" n lib cfg sent p] p1
    by (simp add: serializable_def)
  from Suc.IH [of s1] obtain k2 where
    k2: "fst (prepare n lib cfg [r] s1) = Unfinished"
      "snd (prepare n lib cfg [r] s1) = s1 @ replicate k2 (compressed lib [])"
    by auto
  show ?case
  proof (cases o1)
    case Returned
    have "prepare (Suc n) lib cfg [r] sent = prepare n lib cfg [r] s1"
      using ser big p1 Returned by (simp add: prepare_Suc)
    then show ?thesis
      using k1 k2 by (simp add: exI [of _ "k1 + k2"] replicate_add)
  next
    case (Panicked p)
    then show ?thesis using np by simp
  next
    case Unfinished
    have "prepare (Suc n) lib cfg [r] sent = (Unfinished, s1)"
      using ser big p1 Unfinished by (simp add: prepare_Suc)
    then show ?thesis
      using k1 by (simp add: exI [of _ k1])
  qed
qed

text \<open>
  \<open>prepare\<close> returns when every record of the list is serializable and the buffer of each
  single record and of the empty list has a capacity under the cap: a recursion depth of
  one more than the length of the list is enough.
\<close>

lemma prepare_returns_depth:
  assumes ser: "serializable records"
    and one: "\<forall>r\<in>set records. int (Cap (compressed lib [r])) < sint (maxBufferSize cfg)"
    and nil: "int (Cap (compressed lib [])) < sint (maxBufferSize cfg)"
    and len: "length records \<le> fuel"
  shows "fst (prepare (Suc fuel) lib cfg records sent) = Returned"
  using ser one len
proof (induction fuel arbitrary: records sent)
  case 0
  then show ?case using nil by (simp add: prepare_Suc)
next
  case (Suc n)
  let ?h = "length records div 2"
  show ?case
  proof (cases "sint (maxBufferSize cfg) \<le> int (Cap (compressed lib records))")
    case False
    then show ?thesis using Suc.prems by (simp add: prepare_Suc)
  next
    case True
    have two: "2 \<le> length records"
    proof (rule ccontr)
      assume "\<not> 2 \<le> length records"
      then consider "records = []" | r where "records = [r]"
        by (cases records) (auto simp: Suc_le_eq)
      then show False using True nil Suc.prems(2) by cases auto
    qed
    have l1: "length (take ?h records) \<le> n" and l2: "length (drop ?h records) \<le> n"
      using two Suc.prems(3) by auto
    have a1: "\<forall>r\<in>set (take ?h records). int (Cap (compressed lib [r])) < sint (maxBufferSize cfg)"
      using Suc.prems(2) by (auto dest: in_set_takeD)
    have a2: "\<forall>r\<in>set (drop ?h records). int (Cap (compressed lib [r])) < sint (maxBufferSize cfg)"
      using Suc.prems(2) by (auto dest: in_set_dropD)
    obtain o1 s1 where p1: "prepare (Suc n) lib cfg (take ?h records) sent = (o1, s1)"
      by (cases "prepare (Suc n) lib cfg (take ?h records) sent")
    have "o1 = Returned"
      using Suc.IH [OF serializable_take [OF Suc.prems(1)] a1 l1, of sent] p1 by simp
    moreover have "fst (prepare (Suc n) lib cfg (drop ?h records) s1) = Returned"
      by (rule Suc.IH [OF serializable_drop [OF Suc.prems(1)] a2 l2])
    ultimately show ?thesis
      using True Suc.prems(1) p1 by (simp add: prepare_Suc [of "Suc n"])
  qed
qed

text \<open>A buffer whose capacity reaches the cap is never handed to a request.\<close>

lemma prepare_never_sends_at_cap:
  assumes big: "sint (maxBufferSize cfg) \<le> int (Cap b)" and new: "b \<notin> set sent"
  shows "b \<notin> set (snd (prepare fuel lib cfg records sent))"
proof -
  obtain chunks where
    c: "snd (prepare fuel lib cfg records sent) = sent @ map (compressed lib) chunks"
      "\<forall>c\<in>set chunks. serializable c \<and> int (Cap (compressed lib c)) < sint (maxBufferSize cfg)"
    using prepare_chunks [of fuel lib cfg records sent] by blast
  show ?thesis
    using c big new by auto
qed

lemma demo_compressed [simp]:
  "compressed demoLib rs
     = \<lparr>Bytes = rs, Len = jsonLength rs + 30, Cap = bufferCap (jsonLength rs + 30)\<rparr>"
  by (simp add: compressed_def demoLib_def)

lemma demo_lengths [simp]:
  "jsonLength [] = 2"
  "jsonLength [demoRecord ''a''] = 17"
  "jsonLength [lowerRecord] = 30"
  "jsonLength [upperRecord] = 30"
  "jsonLength [lowerRecord, upperRecord] = 59"
  "jsonLength [longRecord] = 56"
  by (simp_all add: jsonLength_def recordLength_def demoRecord_def lowerRecord_def
      upperRecord_def longRecord_def)

lemma demo_caps [simp]:
  "bufferCap 32 = 64" "bufferCap 47 = 64" "bufferCap 60 = 64" "bufferCap 89 = 128"
  "bufferCap 86 = 128"
  by (simp_all add: bufferCap_def)

lemma demo_serializable [simp]: "serializable (map demoRecord xs)"
  by (induction xs) (simp_all add: serializable_def demoRecord_def)

lemma demo_serializable1: "serializable [demoRecord a]"
  using demo_serializable [of "[a]"] by simp

lemma demo_serializable_pair [simp]:
  "serializable [lowerRecord]" "serializable [upperRecord]"
  "serializable [lowerRecord, upperRecord]" "serializable [longRecord]"
  by (simp_all add: serializable_def demoRecord_def lowerRecord_def upperRecord_def
      longRecord_def)

text \<open>
  Two records under a cap of 100. Each alone fills 60 bytes of a buffer of 64; together
  they exceed 64 bytes, so their buffer has grown to 128 at least: the list is split and
  the two records are sent one by one.
\<close>

lemma demo_pair:
  "prepare (Suc (Suc 0)) demoLib (demoConfig\<lparr>maxBufferSize := 100\<rparr>)
      [lowerRecord, upperRecord] []
   = (Returned, [compressed demoLib [lowerRecord], compressed demoLib [upperRecord]])"
  by (simp add: prepare_Suc demoConfig_def)

text \<open>
  When every record of the list is serializable and the buffers of each single record
  and of the empty list have a capacity under the cap, \<open>prepare\<close> returns within a depth
  of one more than the length of the list, and the payloads it has handed over are the
  buffers of consecutive segments that make up the list.
\<close>

lemma prepare_returns:
  assumes ser: "serializable records"
    and one: "\<forall>r\<in>set records. int (Cap (compressed lib [r])) < sint (maxBufferSize cfg)"
    and nil: "int (Cap (compressed lib [])) < sint (maxBufferSize cfg)"
    and len: "length records \<le> fuel"
  shows "\<exists>chunks. prepare (Suc fuel) lib cfg records sent
           = (Returned, sent @ map (compressed lib) chunks)
         \<and> concat chunks = records"
proof -
  have r: "fst (prepare (Suc fuel) lib cfg records sent) = Returned"
    using ser one nil len by (rule prepare_returns_depth)
  obtain chunks where
    c: "snd (prepare (Suc fuel) lib cfg records sent) = sent @ map (compressed lib) chunks"
      "fst (prepare (Suc fuel) lib cfg records sent) = Returned \<longrightarrow> concat chunks = records"
    using prepare_chunks [of "Suc fuel" lib cfg records sent] by blast
  show ?thesis
    using r c by (intro exI [of _ chunks]) (simp add: prod_eq_iff)
qed

lemma prepare_returns_witness:
  "\<exists>chunks. prepare (Suc (Suc (Suc 0))) demoLib (demoConfig\<lparr>maxBufferSize := 100\<rparr>)
       [lowerRecord, upperRecord] []
     = (Returned, [] @ map (compressed demoLib) chunks)
     \<and> concat chunks = [lowerRecord, upperRecord]"
proof -
  have "serializable [lowerRecord, upperRecord]" by simp
  then show ?thesis
    by (rule prepare_returns) (simp_all add: demoConfig_def)
qed

lemma prepare_fuel_stable_witness:
  "fst (prepare (Suc (Suc 0)) demoLib (demoConfig\<lparr>maxBufferSize := 100\<rparr>)
      [lowerRecord, upperRecord] []) \<noteq> Unfinished
   \<and> prepare (Suc (Suc (Suc 0))) demoLib (demoConfig\<lparr>maxBufferSize := 100\<rparr>)
      [lowerRecord, upperRecord] []
     = (Returned, [compressed demoLib [lowerRecord], compressed demoLib [upperRecord]])"
  using prepare_fuel_stable [of "Suc (Suc 0)" demoLib "demoConfig\<lparr>maxBufferSize := 100\<rparr>"
      "[lowerRecord, upperRecord]" "[]"] demo_pair
  by simp

text \<open>
  C2. The claim is that packaging terminates for every record list, a list of one record
  being sent whatever its size. \<open>prepare\<close> has no such base case. With a size cap of 47
  and the record \<open>{"message":"a"}\<close>, whose 47 compressed bytes lie in a buffer of capacity
  64, the call splits the list into the empty list and the list itself and calls itself
  on both: whatever recursion depth is allowed, the call has not returned.
  (\<open>prepare_single_oversized\<close> above is the same fact for every library behaviour and
  every record whose buffer capacity reaches the cap.)
\<close>

theorem prepare_oversized_single_never_returns:
  "\<forall>fuel. fst (prepare fuel demoLib (demoConfig\<lparr>maxBufferSize := 47\<rparr>) [demoRecord ''a''] [])
      = Unfinished"
  using prepare_single_oversized [OF demo_serializable1 [of "''a''"],
      of "demoConfig\<lparr>maxBufferSize := 47\<rparr>" demoLib]
  by simp

text \<open>
  C10. When \<open>prepare\<close> is called on a list of one record whose buffer capacity reaches
  the size cap, the midpoint split gives the empty list as first half, and (when the
  buffer of the empty list is under the cap) the payload of the empty record array is the
  next payload handed to a request.
\<close>

theorem prepare_single_sends_empty:
  assumes ser: "serializable [r]"
    and big: "sint (maxBufferSize cfg) \<le> int (Cap (compressed lib [r]))"
    and small: "int (Cap (compressed lib [])) < sint (maxBufferSize cfg)"
  shows "take (length [r] div 2) [r] = []
     \<and> (\<exists>rest. snd (prepare (Suc (Suc n)) lib cfg [r] sent) = sent @ compressed lib [] # rest)"
proof -
  have nil: "prepare (Suc n) lib cfg [] sent = (Returned, sent @ [compressed lib []])"
    using small by (simp add: prepare_Suc serializable_def)
  have "prepare (Suc (Suc n)) lib cfg [r] sent
      = prepare (Suc n) lib cfg [r] (sent @ [compressed lib []])"
    using ser big nil by (simp add: prepare_Suc [of "Suc n"])
  moreover obtain chunks where
    "snd (prepare (Suc n) lib cfg [r] (sent @ [compressed lib []]))
       = (sent @ [compressed lib []]) @ map (compressed lib) chunks"
    using prepare_chunks [of "Suc n" lib cfg "[r]" "sent @ [compressed lib []]"] by blast
  ultimately show ?thesis by simp
qed

text \<open>
  The hypotheses of C10 hold for a cap of 100 and the record of 54 bytes, whose buffer
  has grown past its first 64 bytes.
\<close>

theorem prepare_single_sends_empty_witness:
  "serializable [longRecord]
   \<and> sint (maxBufferSize (demoConfig\<lparr>maxBufferSize := 100\<rparr>))
        \<le> int (Cap (compressed demoLib [longRecord]))
   \<and> int (Cap (compressed demoLib [])) < sint (maxBufferSize (demoConfig\<lparr>maxBufferSize := 100\<rparr>))
   \<and> (\<exists>rest. snd (prepare (Suc (Suc 0)) demoLib (demoConfig\<lparr>maxBufferSize := 100\<rparr>)
                    [longRecord] [])
          = compressed demoLib [] # rest)
   \<and> Bytes (compressed demoLib []) = []"
  using prepare_single_sends_empty
      [of longRecord "demoConfig\<lparr>maxBufferSize := 100\<rparr>" demoLib 0 "[]"]
  by simp

text \<open>
  C3, as the claim states it, is false: the cap is not compared with the compressed
  size. Under a cap of 100 the two records compress together to fewer than 100 bytes, and
  yet they are never sent as one payload: they exceed 64 bytes, so their buffer has grown
  to a capacity of 128 at least, the list is split, and two payloads are sent.
\<close>

theorem pair_under_cap_is_split:
  "int (Len (compressed demoLib [lowerRecord, upperRecord]))
      < sint (maxBufferSize (demoConfig\<lparr>maxBufferSize := 100\<rparr>))
   \<and> prepare (Suc (Suc 0)) demoLib (demoConfig\<lparr>maxBufferSize := 100\<rparr>)
        [lowerRecord, upperRecord] []
      = (Returned, [compressed demoLib [lowerRecord], compressed demoLib [upperRecord]])
   \<and> (\<forall>fuel. compressed demoLib [lowerRecord, upperRecord]
         \<notin> set (snd (prepare fuel demoLib (demoConfig\<lparr>maxBufferSize := 100\<rparr>)
                       [lowerRecord, upperRecord] [])))"
proof -
  have "compressed demoLib [lowerRecord, upperRecord]
      \<notin> set (snd (prepare fuel demoLib (demoConfig\<lparr>maxBufferSize := 100\<rparr>)
                    [lowerRecord, upperRecord] []))" for fuel
    by (rule prepare_never_sends_at_cap) simp_all
  then show ?thesis
    using demo_pair by simp
qed

text \<open>
  C3, amended. Whatever list \<open>prepare\<close> is given and however far it gets, every payload it
  hands to a request has a buffer capacity strictly under \<open>maxBufferSize\<close>, and so a
  compressed size strictly under it: the cap is compared with \<open>Cap()\<close> of the buffer of
  compressed bytes, which is at least their length (the hypothesis, a fact of
  \<open>bytes.Buffer\<close>), and never with the size of the serialized bytes.
\<close>

theorem prepare_sent_under_cap:
  assumes cap: "\<forall>rs. Len (compressed lib rs) \<le> Cap (compressed lib rs)"
  shows "\<exists>new. snd (prepare fuel lib cfg records sent) = sent @ new
     \<and> (\<forall>b\<in>set new. int (Len b) \<le> int (Cap b) \<and> int (Cap b) < sint (maxBufferSize cfg))"
proof -
  obtain chunks where
    c: "snd (prepare fuel lib cfg records sent) = sent @ map (compressed lib) chunks"
      "\<forall>c\<in>set chunks. serializable c \<and> int (Cap (compressed lib c)) < sint (maxBufferSize cfg)"
    using prepare_chunks [of fuel lib cfg records sent] by blast
  show ?thesis
    using c cap by (intro exI [of _ "map (compressed lib) chunks"]) auto
qed

text \<open>
  The two records under a cap of 100: the payloads sent have capacity 64.
\<close>

theorem prepare_sent_under_cap_witness:
  "(\<forall>rs. Len (compressed demoLib rs) \<le> Cap (compressed demoLib rs))
   \<and> (\<exists>new. snd (prepare (Suc (Suc 0)) demoLib (demoConfig\<lparr>maxBufferSize := 100\<rparr>)
          [lowerRecord, upperRecord] []) = [] @ new
        \<and> (\<forall>b\<in>set new. int (Len b) \<le> int (Cap b)
              \<and> int (Cap b) < sint (maxBufferSize (demoConfig\<lparr>maxBufferSize := 100\<rparr>))))
   \<and> snd (prepare (Suc (Suc 0)) demoLib (demoConfig\<lparr>maxBufferSize := 100\<rparr>)
          [lowerRecord, upperRecord] [])
       = [compressed demoLib [lowerRecord], compressed demoLib [upperRecord]]"
proof -
  have h: "\<forall>rs. Len (compressed demoLib rs) \<le> Cap (compressed demoLib rs)"
    by (simp add: bufferCap_def)
  show ?thesis
    using h prepare_sent_under_cap [OF h] demo_pair by simp
qed

text \<open>
  C4. The claim is that the payloads of a flush always decode to the records that were
  flushed. For the list of C2 they do not: the call never returns and, at any depth, what
  it has handed over decodes to no record at all, so the record \<open>{"message":"a"}\<close> is
  lost. This is the missing base case of C2 again.
\<close>

theorem oversized_single_lost:
  "\<forall>fuel. fst (prepare fuel demoLib (demoConfig\<lparr>maxBufferSize := 47\<rparr>) [demoRecord ''a''] [])
        \<noteq> Returned
     \<and> mset (concat (map Bytes
          (snd (prepare fuel demoLib (demoConfig\<lparr>maxBufferSize := 47\<rparr>) [demoRecord ''a''] []))))
        \<noteq> mset [demoRecord ''a'']"
proof
  fix fuel
  obtain k where
    "fst (prepare fuel demoLib (demoConfig\<lparr>maxBufferSize := 47\<rparr>) [demoRecord ''a''] [])
       = Unfinished"
    "snd (prepare fuel demoLib (demoConfig\<lparr>maxBufferSize := 47\<rparr>) [demoRecord ''a''] [])
       = [] @ replicate k (compressed demoLib [])"
    using prepare_single_oversized [OF demo_serializable1 [of "''a''"],
        of "demoConfig\<lparr>maxBufferSize := 47\<rparr>" demoLib fuel "[]"]
    by auto
  moreover have "concat (map Bytes (replicate k (compressed demoLib []))) = []"
    by (induction k) simp_all
  ultimately show
    "fst (prepare fuel demoLib (demoConfig\<lparr>maxBufferSize := 47\<rparr>) [demoRecord ''a''] [])
        \<noteq> Returned
     \<and> mset (concat (map Bytes
          (snd (prepare fuel demoLib (demoConfig\<lparr>maxBufferSize := 47\<rparr>) [demoRecord ''a''] []))))
        \<noteq> mset [demoRecord ''a'']"
    by simp
qed

section \<open>Properties of the Batch Accumulator\<close>

lemma sint_elapsed:
  assumes "0 \<le> sint (t0 :: int64)" and "sint t0 \<le> sint (now :: int64)"
  shows "sint (now - t0) = sint now - sint t0"
proof -
  have "sint now < 2 ^ 63" using sint_lt [of now] by simp
  then have "- (2 ^ 63) \<le> sint now - sint t0" "sint now - sint t0 < 2 ^ 63"
    using assms by simp_all
  then show ?thesis
    by (simp add: sint_word_ariths signed_take_bit_int_eq_self_iff)
qed

text \<open>
  C1, as the claim states it, is false: the elapsed-time test of \<open>shouldSend\<close> is strict.
  With \<open>maxTimeBetweenFlushes = 5000\<close> and \<open>maxRecords = 1024\<close>, an insertion exactly 5000
  milliseconds after the last flush (elapsed time \<open>\<ge>\<close> the maximum) triggers no flush;
  the same insertion one millisecond later does.
\<close>

theorem addRecord_no_flush_at_equal_elapsed:
  "sint (maxTimeBetweenFlushes demoConfig)
      \<le> sint ((5000 :: int64) - lastFlushTime (newBufferManager demoConfig 0))
   \<and> snd (addRecord 1 demoLib 5000 5000 (demoRecord ''a'') (newBufferManager demoConfig 0)) = None
   \<and> snd (addRecord 1 demoLib 5001 5001 (demoRecord ''a'') (newBufferManager demoConfig 0))
       = Some (Returned, [compressed demoLib [demoRecord ''a'']])"
  using demo_serializable1 [of "''a''"]
  by (simp add: addRecord_def shouldSend_def sendRecords_def newBufferManager_def demoConfig_def
      prepare_Suc Let_def)

text \<open>
  C1, amended. An insertion triggers a flush if and only if, with the record appended,
  the batch length is \<open>\<ge> maxRecords\<close> or the time elapsed since the last flush is
  strictly greater than \<open>maxTimeBetweenFlushes\<close>. The flush empties the batch, sets the
  time of the last flush and packages the whole batch, the new record last; otherwise
  \<open>addRecord\<close> only appends the record and returns no channel. The elapsed time is the
  \<open>int64\<close> difference of the two clock readings, which is their true difference when the
  last flush time is not negative and not after the reading.
\<close>

theorem addRecord_flush:
  "addRecord fuel lib nowCheck nowFlush r bm =
     (if sint (maxRecords (config bm)) \<le> int (length (buffer bm @ [r]))
         \<or> sint (maxTimeBetweenFlushes (config bm)) < sint (nowCheck - lastFlushTime bm)
      then (bm\<lparr>buffer := [], lastFlushTime := nowFlush\<rparr>,
            Some (prepare fuel lib (config bm) (buffer bm @ [r]) []))
      else (bm\<lparr>buffer := buffer bm @ [r]\<rparr>, None))
   \<and> (0 \<le> sint (lastFlushTime bm) \<and> sint (lastFlushTime bm) \<le> sint nowCheck
        \<longrightarrow> sint (nowCheck - lastFlushTime bm) = sint nowCheck - sint (lastFlushTime bm))"
  by (simp add: addRecord_def shouldSend_def sendRecords_def Let_def sint_elapsed)

text \<open>Last flush at 1000: an insertion at 6001 flushes, one at 6000 does not.\<close>

theorem addRecord_flush_witness:
  "0 \<le> sint (lastFlushTime (newBufferManager demoConfig 1000))
   \<and> sint (lastFlushTime (newBufferManager demoConfig 1000)) \<le> sint (6001 :: int64)
   \<and> sint ((6001 :: int64) - lastFlushTime (newBufferManager demoConfig 1000)) = 5001
   \<and> addRecord 1 demoLib 6001 6002 (demoRecord ''a'') (newBufferManager demoConfig 1000)
      = (newBufferManager demoConfig 6002, Some (Returned, [compressed demoLib [demoRecord ''a'']]))
   \<and> addRecord 1 demoLib 6000 6002 (demoRecord ''a'') (newBufferManager demoConfig 1000)
      = ((newBufferManager demoConfig 1000)\<lparr>buffer := [demoRecord ''a'']\<rparr>, None)"
  using addRecord_flush [of 1 demoLib 6001 6002 "demoRecord ''a''" "newBufferManager demoConfig 1000"]
    addRecord_flush [of 1 demoLib 6000 6002 "demoRecord ''a''" "newBufferManager demoConfig 1000"]
    demo_serializable1 [of "''a''"]
  by (simp add: newBufferManager_def demoConfig_def prepare_Suc)

lemma nestedRaw_prepared:
  "prepareRecord nestedRaw OtherTime demoConfig
     = Inr [(''message'', VList [VMap [(KString ''b'', VInt 1)]]),
            (''nr.reportingSource'',
               VStrMap [(''type'', VString ''fluent-bit''), (''version'', VString ''1'')])]"
  by (simp add: prepareRecord_def remapRecord_def nestedRaw_def store_def demoConfig_def)

text \<open>
  C5, as the claim states it, is false. The decoded record \<open>{"log": [{"b": 1}]}\<close> is
  normalized without error, the map inside the list untouched; inserted with
  \<open>maxRecords = 1\<close> it triggers a flush, \<open>json.Marshal\<close> rejects the map, and the panic of
  \<open>packagePayload\<close> leaves \<open>addRecord\<close> as a panic, before any payload is handed over.
\<close>

theorem addRecord_panics_on_nested_map:
  "prepareRecord nestedRaw OtherTime demoConfig
     = Inr [(''message'', VList [VMap [(KString ''b'', VInt 1)]]),
            (''nr.reportingSource'',
               VStrMap [(''type'', VString ''fluent-bit''), (''version'', VString ''1'')])]
   \<and> snd (addRecord 1 demoLib 0 0
        [(''message'', VList [VMap [(KString ''b'', VInt 1)]]),
         (''nr.reportingSource'',
            VStrMap [(''type'', VString ''fluent-bit''), (''version'', VString ''1'')])]
        (newBufferManager (demoConfig\<lparr>maxRecords := 1\<rparr>) 0))
     = Some (Panicked UnsupportedType, [])"
  by (simp add: nestedRaw_prepared addRecord_def shouldSend_def sendRecords_def
      newBufferManager_def prepare_Suc serializable_def Let_def)

text \<open>
  C5, amended. \<open>addRecord\<close> panics exactly when the insertion triggers a flush and some
  record of the batch holds a value that \<open>json.Marshal\<close> does not support: then the panic
  of \<open>packagePayload\<close> goes through \<open>prepare\<close>, \<open>sendRecords\<close> and \<open>addRecord\<close> to the
  caller, after the batch was emptied and before any payload was handed over. When no
  flush is due \<open>addRecord\<close> appends the record and returns. A flush of a serializable
  batch does not panic: it returns, or it is the run of C2 that never returns.
\<close>

theorem addRecord_panics_iff:
  "((\<exists>p s. snd (addRecord (Suc n) lib nowCheck nowFlush r bm) = Some (Panicked p, s))
      = (shouldSend nowCheck (bm\<lparr>buffer := buffer bm @ [r]\<rparr>)
         \<and> \<not> serializable (buffer bm @ [r])))
   \<and> (shouldSend nowCheck (bm\<lparr>buffer := buffer bm @ [r]\<rparr>) \<and> \<not> serializable (buffer bm @ [r])
        \<longrightarrow> addRecord (Suc n) lib nowCheck nowFlush r bm
            = (bm\<lparr>buffer := [], lastFlushTime := nowFlush\<rparr>,
               Some (Panicked UnsupportedType, [])))
   \<and> (\<not> shouldSend nowCheck (bm\<lparr>buffer := buffer bm @ [r]\<rparr>)
        \<longrightarrow> addRecord (Suc n) lib nowCheck nowFlush r bm
            = (bm\<lparr>buffer := buffer bm @ [r]\<rparr>, None))"
proof (cases "shouldSend nowCheck (bm\<lparr>buffer := buffer bm @ [r]\<rparr>)")
  case False
  then show ?thesis by (simp add: addRecord_def)
next
  case True
  then have eq: "addRecord (Suc n) lib nowCheck nowFlush r bm
      = (bm\<lparr>buffer := [], lastFlushTime := nowFlush\<rparr>,
         Some (prepare (Suc n) lib (config bm) (buffer bm @ [r]) []))"
    by (simp add: addRecord_def sendRecords_def Let_def)
  show ?thesis
  proof (cases "serializable (buffer bm @ [r])")
    case ser: True
    have "prepare (Suc n) lib (config bm) (buffer bm @ [r]) [] \<noteq> (Panicked p, s)" for p s
      using prepare_serializable_no_panic [OF ser, of "Suc n" lib "config bm" "[]" p]
      by auto
    then show ?thesis using True ser eq by simp
  next
    case False
    then show ?thesis using True eq by (simp add: prepare_unserializable)
  qed
qed

text \<open>
  A record holding a \<open>map[interface{}]interface{}\<close>: with \<open>maxRecords = 1\<close> its insertion
  panics, with \<open>maxRecords = 1024\<close> it is appended and \<open>addRecord\<close> returns.
\<close>

theorem addRecord_panics_iff_witness:
  "shouldSend 0 ((newBufferManager (demoConfig\<lparr>maxRecords := 1\<rparr>) 0)
       \<lparr>buffer := buffer (newBufferManager (demoConfig\<lparr>maxRecords := 1\<rparr>) 0)
                   @ [[(''m'', VMap [])]]\<rparr>)
   \<and> \<not> serializable (buffer (newBufferManager (demoConfig\<lparr>maxRecords := 1\<rparr>) 0)
                       @ [[(''m'', VMap [])]])
   \<and> snd (addRecord (Suc 0) demoLib 0 0 [(''m'', VMap [])]
            (newBufferManager (demoConfig\<lparr>maxRecords := 1\<rparr>) 0))
       = Some (Panicked UnsupportedType, [])
   \<and> \<not> shouldSend 0 ((newBufferManager demoConfig 0)
       \<lparr>buffer := buffer (newBufferManager demoConfig 0) @ [[(''m'', VMap [])]]\<rparr>)
   \<and> snd (addRecord (Suc 0) demoLib 0 0 [(''m'', VMap [])] (newBufferManager demoConfig 0)) = None"
  using addRecord_panics_iff [of 0 demoLib 0 0 "[(''m'', VMap [])]"
      "newBufferManager (demoConfig\<lparr>maxRecords := 1\<rparr>) 0"]
    addRecord_panics_iff [of 0 demoLib 0 0 "[(''m'', VMap [])]" "newBufferManager demoConfig 0"]
  by (simp add: shouldSend_def newBufferManager_def demoConfig_def serializable_def)

section \<open>Properties of the Record Normalizer\<close>

lemma store_string: "store (KString s) v out = Inr (AList.update s v out)"
  by (simp add: store_def)

lemma store_other: "\<not> isString k \<Longrightarrow> store k v out = Inl TypeAssertion"
  by (cases k) (simp_all add: store_def)

lemma store_Inl: "store k v out = Inl p \<Longrightarrow> p = TypeAssertion"
  by (cases k) (simp_all add: store_def)

lemma update_fresh: "s \<notin> fst ` set out \<Longrightarrow> AList.update s v out = out @ [(s, v)]"
  by (induction out) auto

lemma remapLoop_Inl: "remapLoop m out = Inl p \<Longrightarrow> p = TypeAssertion"
proof (induction m out rule: remapLoop.induct)
  case (1 out)
  then show ?case by simp
next
  case (2 k v rest out)
  then show ?case
    by (cases v) (auto split: sum.splits dest: store_Inl)
qed

text \<open>A key that is not a string, at the top or in a directly nested mapping, is a panic.\<close>

lemma remapLoop_panic:
  "\<not> list_all (\<lambda>e. isString (fst e) \<and> stringKeyed (snd e)) m \<Longrightarrow>
     remapLoop m out = Inl TypeAssertion"
proof (induction m out rule: remapLoop.induct)
  case (1 out)
  then show ?case by simp
next
  case (2 k v rest out)
  show ?case
  proof (cases "isString k")
    case False
    then show ?thesis
      by (cases v) (auto simp add: store_other split: sum.splits dest: remapLoop_Inl)
  next
    case True
    then obtain s where k: "k = KString s" by (cases k) auto
    show ?thesis
    proof (cases "stringKeyed v")
      case False
      then obtain inner where v: "v = VMap inner" by (cases v) auto
      then have "remapLoop inner [] = Inl TypeAssertion"
        using "2.IH"(8) [of inner] False by simp
      then show ?thesis using v by simp
    next
      case sk: True
      then have rest: "\<not> list_all (\<lambda>e. isString (fst e) \<and> stringKeyed (snd e)) rest"
        using "2.prems" True by simp
      show ?thesis
        using "2.IH" rest k
        by (cases v) (auto simp add: store_string split: sum.splits dest: remapLoop_Inl)
    qed
  qed
qed

text \<open>
  With string keys, no key twice, and none of the keys already in the output map, the
  loop appends the normalized entries in the order it visits them.
\<close>

lemma remapLoop_ok:
  "list_all (\<lambda>e. isString (fst e) \<and> stringKeyed (snd e)) m \<Longrightarrow>
   distinct (map fst m) \<Longrightarrow> list_all (\<lambda>e. distinctKeys (snd e)) m \<Longrightarrow>
   keyString ` fst ` set m \<inter> fst ` set out = {} \<Longrightarrow>
   remapLoop m out = Inr (out @ map (\<lambda>e. (keyString (fst e), normalized (snd e))) m)"
proof (induction m out rule: remapLoop.induct)
  case (1 out)
  then show ?case by simp
next
  case (2 k v rest out)
  note sk = "2.prems"(1) and dk = "2.prems"(2) and dv = "2.prems"(3) and dj = "2.prems"(4)
  from sk obtain s where k: "k = KString s" by (cases k) auto
  have fresh: "s \<notin> fst ` set out"
    using dj k by auto
  have srest: "s \<notin> keyString ` fst ` set rest"
  proof
    assume "s \<in> keyString ` fst ` set rest"
    then obtain e where e: "e \<in> set rest" "keyString (fst e) = s" by auto
    then have "isString (fst e)" using sk by (auto simp: list_all_iff)
    then have "fst e = KString s" using e(2) by (cases "fst e") auto
    then show False using dk e(1) k by force
  qed
  have st: "store k w out = Inr (out @ [(s, w)])" for w
    using k fresh by (simp add: store_string update_fresh)
  have disj: "keyString ` fst ` set rest \<inter> fst ` set (out @ [(s, w)]) = {}" for w
    using dj srest by auto
  have r: "list_all (\<lambda>e. isString (fst e) \<and> stringKeyed (snd e)) rest"
    "distinct (map fst rest)" "list_all (\<lambda>e. distinctKeys (snd e)) rest"
    using sk dk dv by simp_all
  show ?case
  proof (cases v)
    case (VMap inner)
    have "remapLoop inner []
        = Inr ([] @ map (\<lambda>e. (keyString (fst e), normalized (snd e))) inner)"
      using "2.IH"(8) [OF VMap] sk dv VMap by simp
    then have i: "remapLoop inner []
        = Inr (map (\<lambda>e. (keyString (fst e), normalized (snd e))) inner)"
      by simp
    show ?thesis
      using "2.IH"(9) [OF VMap i st r disj] VMap i st k by simp
  next
    case (VBytes b)
    show ?thesis using "2.IH"(5) [OF VBytes st r disj] VBytes st k by simp
  next
    case (VString b)
    show ?thesis using "2.IH"(6) [OF VString st r disj] VString st k by simp
  next
    case VNil
    show ?thesis using "2.IH"(1) [OF VNil st r disj] VNil st k by simp
  next
    case (VBool b)
    show ?thesis using "2.IH"(2) [OF VBool st r disj] VBool st k by simp
  next
    case (VInt b)
    show ?thesis using "2.IH"(3) [OF VInt st r disj] VInt st k by simp
  next
    case (VUint b)
    show ?thesis using "2.IH"(4) [OF VUint st r disj] VUint st k by simp
  next
    case (VList b)
    show ?thesis using "2.IH"(7) [OF VList st r disj] VList st k by simp
  next
    case (VStrMap b)
    show ?thesis using "2.IH"(10) [OF VStrMap st r disj] VStrMap st k by simp
  qed
qed

lemma normalized_supported: "mapsOnlyInMaps v \<Longrightarrow> jsonSupported (normalized v)"
proof (induction v rule: normalized.induct)
  case (2 m)
  then show ?case by (auto simp: list_all_iff)
qed simp_all

text \<open>
  C7, as the claim states it, is false. A record with the integer key 1 makes
  \<open>remapRecord\<close> panic (the key type of a Go map admits no byte sequence, but it admits
  integers). And a mapping inside a list is returned as it came: its key 1 is still not a
  string and its byte-sequence value is still a byte sequence.
\<close>

theorem remapRecord_not_total_nor_deep:
  "remapRecord [(KInt 1, VString ''x'')] = Inl TypeAssertion
   \<and> remapRecord [(KString ''a'', VList [VMap [(KInt 1, VBytes ''x'')]])]
      = Inr [(''a'', VList [VMap [(KInt 1, VBytes ''x'')]])]"
  by (simp add: remapRecord_def store_def)

text \<open>
  C7, amended. For a decoded record (a Go map: no key twice), \<open>remapRecord\<close> returns if
  and only if the keys of the record and of the mappings nested directly in mappings
  are all strings, and panics otherwise. When it returns, the result has the same keys
  as strings; a byte-sequence value is text, a nested mapping is normalized in the same
  way, and every other value, a list with all it holds included, is unchanged. If
  moreover no list of the record holds a mapping, the result has string keys at every
  level: it is a tree that \<open>json.Marshal\<close> supports.
\<close>

theorem remapRecord_normalizes:
  assumes "distinctKeys (VMap m)"
  shows "remapRecord m =
       (if stringKeyed (VMap m)
        then Inr (map (\<lambda>e. (keyString (fst e), normalized (snd e))) m)
        else Inl TypeAssertion)
     \<and> (stringKeyed (VMap m) \<and> mapsOnlyInMaps (VMap m)
          \<longrightarrow> jsonSupported (normalized (VMap m)))"
proof -
  have "remapRecord m = Inr (map (\<lambda>e. (keyString (fst e), normalized (snd e))) m)"
    if "stringKeyed (VMap m)"
    using remapLoop_ok [of m "[]"] that assms by (simp add: remapRecord_def)
  moreover have "remapRecord m = Inl TypeAssertion" if "\<not> stringKeyed (VMap m)"
    using remapLoop_panic [of m "[]"] that by (simp add: remapRecord_def)
  ultimately show ?thesis
    using normalized_supported [of "VMap m"] by auto
qed

text \<open>A record with a byte-sequence value and a nested mapping, and one with the key 7.\<close>

theorem remapRecord_normalizes_witness:
  "distinctKeys (VMap [(KString ''log'', VBytes ''hi''),
                       (KString ''k'', VMap [(KString ''n'', VInt 1)])])
   \<and> remapRecord [(KString ''log'', VBytes ''hi''), (KString ''k'', VMap [(KString ''n'', VInt 1)])]
      = Inr [(''log'', VString ''hi''), (''k'', VStrMap [(''n'', VInt 1)])]
   \<and> jsonSupported (VStrMap [(''log'', VString ''hi''), (''k'', VStrMap [(''n'', VInt 1)])])
   \<and> remapRecord [(KString ''log'', VBytes ''hi''), (KInt 7, VNil)] = Inl TypeAssertion"
  using remapRecord_normalizes
      [of "[(KString ''log'', VBytes ''hi''), (KString ''k'', VMap [(KString ''n'', VInt 1)])]"]
    remapRecord_normalizes [of "[(KString ''log'', VBytes ''hi''), (KInt 7, VNil)]"]
  by simp

section \<open>Properties of the initialization\<close>

lemma FLBPluginInit_status:
  "fst (FLBPluginInit VERSION ParseInt now ctx g) =
     (if (FLBPluginConfigKey ctx ''apiKey'' = []) = (FLBPluginConfigKey ctx ''licenseKey'' = [])
      then FLB_ERROR else FLB_OK)"
  by (simp add: FLBPluginInit_def Let_def)

lemma FLBPluginInit_error:
  "(FLBPluginConfigKey ctx ''apiKey'' = []) = (FLBPluginConfigKey ctx ''licenseKey'' = []) \<Longrightarrow>
     snd (FLBPluginInit VERSION ParseInt now ctx g) = g"
  by (auto simp add: FLBPluginInit_def Let_def)

lemma FLBPluginInit_ok:
  "(FLBPluginConfigKey ctx ''apiKey'' = []) \<noteq> (FLBPluginConfigKey ctx ''licenseKey'' = []) \<Longrightarrow>
     snd (FLBPluginInit VERSION ParseInt now ctx g) =
       \<lparr>config =
          \<lparr>endpoint = (if FLBPluginConfigKey ctx ''endpoint'' = []
                        then ''https://log-api.newrelic.com/log/v1''
                        else FLBPluginConfigKey ctx ''endpoint''),
           apiKey = FLBPluginConfigKey ctx ''apiKey'',
           licenseKey = FLBPluginConfigKey ctx ''licenseKey'',
           maxBufferSize = (if FLBPluginConfigKey ctx ''maxBufferSize'' = [] then 256000
                            else ParseInt (FLBPluginConfigKey ctx ''maxBufferSize'')),
           maxRecords = (if FLBPluginConfigKey ctx ''maxRecords'' = [] then 1024
                         else ParseInt (FLBPluginConfigKey ctx ''maxRecords'')),
           maxTimeBetweenFlushes =
             (if FLBPluginConfigKey ctx ''maxTimeBetweenFlushes'' = [] then 5000
              else ParseInt (FLBPluginConfigKey ctx ''maxTimeBetweenFlushes'')),
           useApiKey = (FLBPluginConfigKey ctx ''apiKey'' \<noteq> []),
           reportingSourceType =
             (if FLBPluginConfigKey ctx ''reportingSourceType'' = [] then ''fluent-bit''
              else FLBPluginConfigKey ctx ''reportingSourceType''),
           reportingSourceVersion =
             (if FLBPluginConfigKey ctx ''reportingSourceType'' = [] then VERSION
              else FLBPluginConfigKey ctx ''reportingSourceVersion'')\<rparr>,
        buffer = [], lastFlushTime = now\<rparr>"
  by (auto simp add: FLBPluginInit_def Let_def newBufferManager_def)

text \<open>
  C8. \<open>FLBPluginInit\<close> returns \<open>FLB_ERROR\<close>, leaving the global buffer manager as it was,
  exactly when \<open>apiKey\<close> and \<open>licenseKey\<close> are both missing or both given; otherwise it
  returns \<open>FLB_OK\<close> with the two keys stored and \<open>useApiKey\<close> saying which of them was
  given. A key set to the empty string counts as missing, as in the code.
\<close>

theorem FLBPluginInit_credentials:
  "fst (FLBPluginInit VERSION ParseInt now ctx g) =
     (if (FLBPluginConfigKey ctx ''apiKey'' = []) = (FLBPluginConfigKey ctx ''licenseKey'' = [])
      then FLB_ERROR else FLB_OK)
   \<and> (fst (FLBPluginInit VERSION ParseInt now ctx g) = FLB_ERROR
        \<longrightarrow> snd (FLBPluginInit VERSION ParseInt now ctx g) = g)
   \<and> (fst (FLBPluginInit VERSION ParseInt now ctx g) = FLB_OK
        \<longrightarrow> useApiKey (config (snd (FLBPluginInit VERSION ParseInt now ctx g)))
              = (FLBPluginConfigKey ctx ''apiKey'' \<noteq> [])
          \<and> apiKey (config (snd (FLBPluginInit VERSION ParseInt now ctx g)))
              = FLBPluginConfigKey ctx ''apiKey''
          \<and> licenseKey (config (snd (FLBPluginInit VERSION ParseInt now ctx g)))
              = FLBPluginConfigKey ctx ''licenseKey'')"
proof (cases "(FLBPluginConfigKey ctx ''apiKey'' = []) = (FLBPluginConfigKey ctx ''licenseKey'' = [])")
  case True
  then show ?thesis
    using FLBPluginInit_status [of VERSION ParseInt now ctx g]
      FLBPluginInit_error [of ctx VERSION ParseInt now g]
    by simp
next
  case False
  then show ?thesis
    using FLBPluginInit_status [of VERSION ParseInt now ctx g]
      FLBPluginInit_ok [of ctx VERSION ParseInt now g]
    by simp
qed

text \<open>Both keys, no key, and the license key alone.\<close>

theorem FLBPluginInit_credentials_witness:
  "fst (FLBPluginInit ''1.0'' (\<lambda>s. 0) 0 [''apiKey'' \<mapsto> ''a'', ''licenseKey'' \<mapsto> ''l'']
          (newBufferManager demoConfig 0)) = FLB_ERROR
   \<and> snd (FLBPluginInit ''1.0'' (\<lambda>s. 0) 0 [''apiKey'' \<mapsto> ''a'', ''licenseKey'' \<mapsto> ''l'']
          (newBufferManager demoConfig 0)) = newBufferManager demoConfig 0
   \<and> fst (FLBPluginInit ''1.0'' (\<lambda>s. 0) 0 Map.empty (newBufferManager demoConfig 0)) = FLB_ERROR
   \<and> fst (FLBPluginInit ''1.0'' (\<lambda>s. 0) 0 [''licenseKey'' \<mapsto> ''l'']
          (newBufferManager demoConfig 0)) = FLB_OK
   \<and> useApiKey (config (snd (FLBPluginInit ''1.0'' (\<lambda>s. 0) 0 [''licenseKey'' \<mapsto> ''l'']
          (newBufferManager demoConfig 0)))) = False"
  using FLBPluginInit_credentials [of "''1.0''" "\<lambda>s. 0" 0
      "[''apiKey'' \<mapsto> ''a'', ''licenseKey'' \<mapsto> ''l'']" "newBufferManager demoConfig 0"]
    FLBPluginInit_credentials [of "''1.0''" "\<lambda>s. 0" 0 Map.empty "newBufferManager demoConfig 0"]
    FLBPluginInit_credentials [of "''1.0''" "\<lambda>s. 0" 0 "[''licenseKey'' \<mapsto> ''l'']"
      "newBufferManager demoConfig 0"]
  by (simp add: FLBPluginConfigKey_def)

text \<open>
  C9, as the claim states it, is false: with \<open>reportingSourceType\<close> missing the code
  stores \<open>fluent-bit\<close>, not \<open>log-shipper\<close>.
\<close>

theorem FLBPluginInit_default_source_type:
  "reportingSourceType (config (snd (FLBPluginInit ''1.0'' (\<lambda>s. 0) 0 [''apiKey'' \<mapsto> ''a'']
        (newBufferManager demoConfig 7)))) = ''fluent-bit''
   \<and> ''fluent-bit'' \<noteq> ''log-shipper''"
  by (simp add: FLBPluginInit_def FLBPluginConfigKey_def Let_def newBufferManager_def)

text \<open>
  C9, amended. When initialization succeeds, each missing optional key gets its default:
  \<open>maxBufferSize\<close> 256000, \<open>maxRecords\<close> 1024, \<open>maxTimeBetweenFlushes\<close> 5000, \<open>endpoint\<close>
  \<open>https://log-api.newrelic.com/log/v1\<close>, \<open>reportingSourceType\<close> \<open>fluent-bit\<close>; and
  \<open>reportingSourceVersion\<close> is the build version when it and \<open>reportingSourceType\<close> are
  both missing.
\<close>

theorem FLBPluginInit_defaults:
  assumes ok: "fst (FLBPluginInit VERSION ParseInt now ctx g) = FLB_OK"
  shows "(FLBPluginConfigKey ctx ''maxBufferSize'' = []
        \<longrightarrow> maxBufferSize (config (snd (FLBPluginInit VERSION ParseInt now ctx g))) = 256000)
   \<and> (FLBPluginConfigKey ctx ''maxRecords'' = []
        \<longrightarrow> maxRecords (config (snd (FLBPluginInit VERSION ParseInt now ctx g))) = 1024)
   \<and> (FLBPluginConfigKey ctx ''maxTimeBetweenFlushes'' = []
        \<longrightarrow> maxTimeBetweenFlushes (config (snd (FLBPluginInit VERSION ParseInt now ctx g))) = 5000)
   \<and> (FLBPluginConfigKey ctx ''endpoint'' = []
        \<longrightarrow> endpoint (config (snd (FLBPluginInit VERSION ParseInt now ctx g)))
              = ''https://log-api.newrelic.com/log/v1'')
   \<and> (FLBPluginConfigKey ctx ''reportingSourceType'' = []
        \<longrightarrow> reportingSourceType (config (snd (FLBPluginInit VERSION ParseInt now ctx g)))
              = ''fluent-bit'')
   \<and> (FLBPluginConfigKey ctx ''reportingSourceType'' = []
        \<and> FLBPluginConfigKey ctx ''reportingSourceVersion'' = []
        \<longrightarrow> reportingSourceVersion (config (snd (FLBPluginInit VERSION ParseInt now ctx g)))
              = VERSION)"
proof -
  have "(FLBPluginConfigKey ctx ''apiKey'' = []) \<noteq> (FLBPluginConfigKey ctx ''licenseKey'' = [])"
    using ok FLBPluginInit_status [of VERSION ParseInt now ctx g] by (simp split: if_splits)
  then show ?thesis
    by (simp add: FLBPluginInit_ok)
qed

text \<open>A configuration that sets \<open>apiKey\<close> and nothing else.\<close>

theorem FLBPluginInit_defaults_witness:
  "fst (FLBPluginInit ''1.0'' (\<lambda>s. 0) 0 [''apiKey'' \<mapsto> ''a''] (newBufferManager demoConfig 7))
     = FLB_OK
   \<and> maxBufferSize (config (snd (FLBPluginInit ''1.0'' (\<lambda>s. 0) 0 [''apiKey'' \<mapsto> ''a'']
        (newBufferManager demoConfig 7)))) = 256000
   \<and> maxRecords (config (snd (FLBPluginInit ''1.0'' (\<lambda>s. 0) 0 [''apiKey'' \<mapsto> ''a'']
        (newBufferManager demoConfig 7)))) = 1024
   \<and> maxTimeBetweenFlushes (config (snd (FLBPluginInit ''1.0'' (\<lambda>s. 0) 0 [''apiKey'' \<mapsto> ''a'']
        (newBufferManager demoConfig 7)))) = 5000
   \<and> endpoint (config (snd (FLBPluginInit ''1.0'' (\<lambda>s. 0) 0 [''apiKey'' \<mapsto> ''a'']
        (newBufferManager demoConfig 7)))) = ''https://log-api.newrelic.com/log/v1''
   \<and> reportingSourceType (config (snd (FLBPluginInit ''1.0'' (\<lambda>s. 0) 0 [''apiKey'' \<mapsto> ''a'']
        (newBufferManager demoConfig 7)))) = ''fluent-bit''
   \<and> reportingSourceVersion (config (snd (FLBPluginInit ''1.0'' (\<lambda>s. 0) 0 [''apiKey'' \<mapsto> ''a'']
        (newBufferManager demoConfig 7)))) = ''1.0''"
proof -
  have ok: "fst (FLBPluginInit ''1.0'' (\<lambda>s. 0) 0 [''apiKey'' \<mapsto> ''a'']
              (newBufferManager demoConfig 7)) = FLB_OK"
    by (simp add: FLBPluginInit_status FLBPluginConfigKey_def)
  show ?thesis
    using ok FLBPluginInit_defaults [OF ok] by (simp add: FLBPluginConfigKey_def)
qed

text \<open>
  The default of \<open>reportingSourceVersion\<close> is decided by the test on
  \<open>reportingSourceType\<close>: with the type given and the version missing the version is
  empty, and with the type missing a version that was given is replaced by the build
  version.
\<close>

lemma FLBPluginInit_version_follows_type:
  "reportingSourceVersion (config (snd (FLBPluginInit ''1.0'' (\<lambda>s. 0) 0
        [''apiKey'' \<mapsto> ''a'', ''reportingSourceType'' \<mapsto> ''x'']
        (newBufferManager demoConfig 7)))) = []
   \<and> reportingSourceVersion (config (snd (FLBPluginInit ''1.0'' (\<lambda>s. 0) 0
        [''apiKey'' \<mapsto> ''a'', ''reportingSourceVersion'' \<mapsto> ''9'']
        (newBufferManager demoConfig 7)))) = ''1.0''"
  by (simp add: FLBPluginInit_def FLBPluginConfigKey_def Let_def newBufferManager_def)

end
